theory Spec2Isabelle
  imports Complex_Main "HOL-Library.AList" "HOL-Library.Multiset"
begin

section \<open>The sculpting example of three-mesh-bvh (example/sculpt.js)\<close>

text \<open>
  The development embeds the per-frame function \<open>render\<close> of \<open>example/sculpt.js\<close>
  and the parameter handlers that \<open>init\<close> installs. JavaScript numbers are
  modelled as real numbers and array indices as natural numbers. Arithmetic is exact
  (no rounding, no NaN) with one exception: \<open>Sphere.containsPoint\<close> and
  \<open>Sphere.intersectsBox\<close>, the two tests of the region test, compare a squared
  distance with a squared radius, and there every operation is rounded as the doubles
  of JavaScript round it.
  A read outside a buffer, which in the source yields \<open>undefined\<close> and then NaN, is
  the value \<open>None\<close> of the model; a write outside a typed array is ignored by
  JavaScript, as \<open>xs[i := v]\<close> ignores it.
\<close>

subsection \<open>The parts of the three.js vector library that the source calls\<close>

datatype vec3 = Vector3 (vx: real) (vy: real) (vz: real)

definition sub :: "vec3 \<Rightarrow> vec3 \<Rightarrow> vec3" where
  "sub u v = Vector3 (vx u - vx v) (vy u - vy v) (vz u - vz v)"

definition add :: "vec3 \<Rightarrow> vec3 \<Rightarrow> vec3" where
  "add u v = Vector3 (vx u + vx v) (vy u + vy v) (vz u + vz v)"

definition multiplyScalar :: "vec3 \<Rightarrow> real \<Rightarrow> vec3" where
  "multiplyScalar u s = Vector3 (vx u * s) (vy u * s) (vz u * s)"

definition addScaledVector :: "vec3 \<Rightarrow> vec3 \<Rightarrow> real \<Rightarrow> vec3" where
  "addScaledVector u v s = Vector3 (vx u + vx v * s) (vy u + vy v * s) (vz u + vz v * s)"

definition cross :: "vec3 \<Rightarrow> vec3 \<Rightarrow> vec3" where
  "cross u v = Vector3 (vy u * vz v - vz u * vy v)
                       (vz u * vx v - vx u * vz v)
                       (vx u * vy v - vy u * vx v)"

definition dot :: "vec3 \<Rightarrow> vec3 \<Rightarrow> real" where
  "dot u v = vx u * vx v + vy u * vy v + vz u * vz v"

definition lengthSq :: "vec3 \<Rightarrow> real" where
  "lengthSq u = vx u * vx u + vy u * vy u + vz u * vz u"

definition distanceToSquared :: "vec3 \<Rightarrow> vec3 \<Rightarrow> real" where
  "distanceToSquared u v =
     (vx u - vx v) * (vx u - vx v) + (vy u - vy v) * (vy u - vy v)
       + (vz u - vz v) * (vz u - vz v)"

definition distanceTo :: "vec3 \<Rightarrow> vec3 \<Rightarrow> real" where
  "distanceTo u v = sqrt (distanceToSquared u v)"

text \<open>\<open>Vector3.normalize\<close> divides by \<open>this.length() || 1\<close>: a zero vector stays zero.\<close>

definition normalize :: "vec3 \<Rightarrow> vec3" where
  "normalize u =
     (let l = sqrt (lengthSq u) in multiplyScalar u (1 / (if l = 0 then 1 else l)))"

text \<open>\<open>Vector3.clamp (min, max)\<close>, component by component.\<close>

definition clamp :: "vec3 \<Rightarrow> vec3 \<Rightarrow> vec3 \<Rightarrow> vec3" where
  "clamp u lo hi = Vector3 (max (vx lo) (min (vx hi) (vx u)))
                           (max (vy lo) (min (vy hi) (vy u)))
                           (max (vz lo) (min (vz hi) (vz u)))"

record sphere =
  center :: vec3
  radius :: real

record box3 =
  bmin :: vec3
  bmax :: vec3

subsection \<open>The arithmetic of doubles in the two tests of the sphere\<close>

text \<open>A JavaScript number is a binary64 double. Every arithmetic operation yields the
  double nearest to the exact result, a tie going to the neighbour with the even
  mantissa. \<open>roundHalfEven\<close> is that rounding to an integer; \<open>ulp x\<close> is the distance
  between the doubles around \<open>x\<close>: \<open>2^(e - 52)\<close> for \<open>2^e \<le> |x| < 2^(e + 1)\<close>, and
  \<open>2^(- 1074)\<close> for every \<open>|x| < 2^(- 1022)\<close> (gradual underflow).\<close>

definition roundHalfEven :: "real \<Rightarrow> int" where
  "roundHalfEven y =
     (let f = \<lfloor>y\<rfloor>; r = y - of_int f in
      if r < 1 / 2 then f else if 1 / 2 < r then f + 1 else if even f then f else f + 1)"

definition binade :: "real \<Rightarrow> int" where
  "binade x = max \<lfloor>log 2 \<bar>x\<bar>\<rfloor> (- 1022)"

definition ulp :: "real \<Rightarrow> real" where
  "ulp x = 2 powr (of_int (binade x) - 52)"

text \<open>A result whose rounded magnitude reaches \<open>2^1024\<close> is \<open>Infinity\<close> in JavaScript.
  The number \<open>2^1024\<close>, which is above every finite double, stands for it: the sums,
  products and comparisons of the two tests below then come out as in JavaScript for
  all finite inputs (a NaN cannot arise in them).\<close>

definition infinity :: real where
  "infinity = 2 ^ 1024"

text \<open>The multiple of \<open>ulp x\<close> nearest to \<open>x\<close>, and the double that an operation with
  the exact result \<open>x\<close> yields.\<close>

definition nearest :: "real \<Rightarrow> real" where
  "nearest x = of_int (roundHalfEven (x / ulp x)) * ulp x"

definition toDouble :: "real \<Rightarrow> real" where
  "toDouble x = (if x = 0 then 0 else max (- infinity) (min infinity (nearest x)))"

text \<open>\<open>Vector3.distanceToSquared\<close> as the doubles compute it:
  \<open>dx = this.x - v.x\<close>, ..., \<open>return dx * dx + dy * dy + dz * dz\<close>, every operation
  rounded, the sum taken from left to right.\<close>

definition roundedDistanceToSquared :: "vec3 \<Rightarrow> vec3 \<Rightarrow> real" where
  "roundedDistanceToSquared u v =
     (let dx = toDouble (vx u - vx v); dy = toDouble (vy u - vy v); dz = toDouble (vz u - vz v)
      in toDouble (toDouble (toDouble (dx * dx) + toDouble (dy * dy)) + toDouble (dz * dz)))"

text \<open>\<open>Sphere.containsPoint\<close>:
  \<open>point.distanceToSquared (this.center) <= this.radius * this.radius\<close>.\<close>

definition containsPoint :: "sphere \<Rightarrow> vec3 \<Rightarrow> bool" where
  "containsPoint s p \<longleftrightarrow>
     roundedDistanceToSquared p (center s) \<le> toDouble (radius s * radius s)"

text \<open>\<open>Sphere.intersectsBox\<close> is \<open>Box3.intersectsSphere\<close>: the centre is clamped
  into the box (\<open>Math.max\<close> and \<open>Math.min\<close> do not round) and the clamped point is
  tested against the squared radius.\<close>

definition intersectsBox :: "sphere \<Rightarrow> box3 \<Rightarrow> bool" where
  "intersectsBox s b \<longleftrightarrow>
     roundedDistanceToSquared (clamp (center s) (bmin b) (bmax b)) (center s)
       \<le> toDouble (radius s * radius s)"

subsection \<open>The region test handed to the traversal (lines 263 to 298)\<close>

datatype shape_result = NOT_INTERSECTED | INTERSECTED | CONTAINED

text \<open>The eight points that the three nested loops build in \<open>tempVec\<close>, in loop order
  (\<open>x\<close> outermost, \<open>z\<close> innermost).\<close>

definition corner :: "box3 \<Rightarrow> nat \<Rightarrow> nat \<Rightarrow> nat \<Rightarrow> vec3" where
  "corner b x y z = Vector3 (if x = 0 then vx (bmin b) else vx (bmax b))
                            (if y = 0 then vy (bmin b) else vy (bmax b))
                            (if z = 0 then vz (bmin b) else vz (bmax b))"

definition corners :: "box3 \<Rightarrow> vec3 list" where
  "corners b = concat (map (\<lambda>x. concat (map (\<lambda>y. map (\<lambda>z. corner b x y z) [0, 1]) [0, 1])) [0, 1])"

text \<open>The loops return \<open>INTERSECTED\<close> at the first corner outside the sphere and fall
  through to \<open>CONTAINED\<close> when there is none.\<close>

definition regionTest :: "sphere \<Rightarrow> box3 \<Rightarrow> shape_result" where
  "regionTest s b =
     (let intersects = intersectsBox s b in
      if intersects then
        (if list_ex (\<lambda>p. \<not> containsPoint s p) (corners b) then INTERSECTED else CONTAINED)
      else (if intersects then INTERSECTED else NOT_INTERSECTED))"

subsection \<open>Matrices and triangles of three.js\<close>

text \<open>A \<open>Matrix4\<close> is its \<open>elements\<close> array: sixteen numbers, column-major.\<close>

type_synonym mat4 = "real list"

text \<open>\<open>Vector3.applyMatrix4\<close> divides by \<open>w\<close>. A divisor of zero (JavaScript goes on with
  infinities and NaN) is the value \<open>None\<close>; for an affine matrix the divisor is \<open>1\<close>.\<close>

definition applyMatrix4 :: "vec3 \<Rightarrow> mat4 \<Rightarrow> vec3 option" where
  "applyMatrix4 v e =
     (let d = e ! 3 * vx v + e ! 7 * vy v + e ! 11 * vz v + e ! 15 in
      if d = 0 then None
      else
        (let w = 1 / d in
         Some (Vector3 ((e ! 0 * vx v + e ! 4 * vy v + e ! 8 * vz v + e ! 12) * w)
                       ((e ! 1 * vx v + e ! 5 * vy v + e ! 9 * vz v + e ! 13) * w)
                       ((e ! 2 * vx v + e ! 6 * vy v + e ! 10 * vz v + e ! 14) * w))))"

text \<open>\<open>Vector3.transformDirection\<close>: the upper-left 3x3 block is applied and the
  result is normalized.\<close>

definition transformDirection :: "vec3 \<Rightarrow> mat4 \<Rightarrow> vec3" where
  "transformDirection v e =
     normalize (Vector3 (e ! 0 * vx v + e ! 4 * vy v + e ! 8 * vz v)
                        (e ! 1 * vx v + e ! 5 * vy v + e ! 9 * vz v)
                        (e ! 2 * vx v + e ! 6 * vy v + e ! 10 * vz v))"

definition identity :: mat4 where
  "identity = [1, 0, 0, 0,  0, 1, 0, 0,  0, 0, 1, 0,  0, 0, 0, 1]"

datatype triangle = Triangle (ta: vec3) (tb: vec3) (tc: vec3)

text \<open>\<open>Triangle.getNormal\<close>: the cross product of \<open>c - b\<close> and \<open>a - b\<close>, scaled to
  length one, or the zero vector for a degenerate triangle.\<close>

definition getNormal :: "vec3 \<Rightarrow> vec3 \<Rightarrow> vec3 \<Rightarrow> vec3" where
  "getNormal a b c =
     (let t = cross (sub c b) (sub a b); targetLengthSq = lengthSq t in
      if targetLengthSq > 0 then multiplyScalar t (1 / sqrt targetLengthSq)
      else Vector3 0 0 0)"

text \<open>Modelled from the spec: \<open>tri.intersectsSphere\<close> lives in the library's own
  sources, which are not part of the example. The spec accepts a triangle when it
  "geometrically intersects the sphere"; this is the closest-point test: the point
  of the triangle nearest to the centre (Voronoi regions of the vertices, the edges
  and the face) is within the radius. The divisors below are non-zero for a
  triangle whose corners are not on one line.\<close>

definition closestPointToPoint :: "triangle \<Rightarrow> vec3 \<Rightarrow> vec3" where
  "closestPointToPoint t p =
     (let a = ta t; b = tb t; c = tc t;
          vab = sub b a; vac = sub c a; vap = sub p a;
          d1 = dot vab vap; d2 = dot vac vap;
          vbp = sub p b; d3 = dot vab vbp; d4 = dot vac vbp;
          vc = d1 * d4 - d3 * d2;
          vcp = sub p c; d5 = dot vab vcp; d6 = dot vac vcp;
          vb = d5 * d2 - d1 * d6;
          va = d3 * d6 - d5 * d4
      in if d1 \<le> 0 \<and> d2 \<le> 0 then a
         else if d3 \<ge> 0 \<and> d4 \<le> d3 then b
         else if vc \<le> 0 \<and> d1 \<ge> 0 \<and> d3 \<le> 0 then addScaledVector a vab (d1 / (d1 - d3))
         else if d6 \<ge> 0 \<and> d5 \<le> d6 then c
         else if vb \<le> 0 \<and> d2 \<ge> 0 \<and> d6 \<le> 0 then addScaledVector a vac (d2 / (d2 - d6))
         else if va \<le> 0 \<and> d4 - d3 \<ge> 0 \<and> d5 - d6 \<ge> 0
           then addScaledVector b (sub c b) ((d4 - d3) / ((d4 - d3) + (d5 - d6)))
         else addScaledVector (addScaledVector a vab (vb / (va + vb + vc))) vac
                (vc / (va + vb + vc)))"

text \<open>Modelled from the spec: \<open>tri.intersectsSphere (sphere)\<close>, the geometric test of
  the primitive callback: the nearest point of the triangle lies in the sphere.\<close>

definition intersectsSphere :: "triangle \<Rightarrow> sphere \<Rightarrow> bool" where
  "intersectsSphere t s \<longleftrightarrow> containsPoint s (closestPointToPoint t (center s))"

subsection \<open>The geometry buffers\<close>

text \<open>\<open>targetMesh.geometry\<close>: the index attribute (one number per entry), the
  position attribute and the normal attribute (three numbers per entry, kept as
  vectors).\<close>

record geometry =
  indexAttr :: "nat list"
  posAttr :: "vec3 list"
  normalAttr :: "vec3 list"

definition getX :: "nat list \<Rightarrow> nat \<Rightarrow> nat option" where
  "getX attr i = (if i < length attr then Some (attr ! i) else None)"

definition fromBufferAttribute :: "vec3 list \<Rightarrow> nat \<Rightarrow> vec3 option" where
  "fromBufferAttribute attr i = (if i < length attr then Some (attr ! i) else None)"

text \<open>\<open>attr.setXYZ (index, x, y, z)\<close>: a write outside the typed array is dropped.\<close>

definition setXYZ :: "vec3 list \<Rightarrow> nat \<Rightarrow> vec3 \<Rightarrow> vec3 list" where
  "setXYZ attr i v = attr[i := v]"

subsection \<open>The spatial index\<close>

text \<open>What the traversal hands to the primitive test: the triangle and the three
  numbers \<open>a\<close>, \<open>b\<close>, \<open>c\<close>. The source pushes them into \<open>indices\<close> and later reads
  \<open>indexAttr.getX (i)\<close> for each of them.\<close>

record prim =
  tri :: triangle
  pa :: nat
  pb :: nat
  pc :: nat

text \<open>Modelled from the spec: \<open>geometry.boundsTree\<close>, the spatial index built by the
  library. Every node has a bounding box; a leaf holds its triangles. The tree is
  built once by \<open>init\<close> and never refitted, so its boxes may be stale after a
  stroke.\<close>

datatype bvh = Leaf box3 "prim list" | Node box3 bvh bvh

fun prims_of :: "bvh \<Rightarrow> prim list" where
  "prims_of (Leaf bx ps) = ps"
| "prims_of (Node bx l r) = prims_of l @ prims_of r"

text \<open>Modelled from the spec: \<open>bvh.shapecast\<close> is the library's traversal and is not
  part of the example. The region test is asked at a node's bounding box:
  \<open>NOT_INTERSECTED\<close> prunes the subtree, \<open>CONTAINED\<close> hands every triangle below to
  the primitive test with \<open>contained = true\<close>, \<open>INTERSECTED\<close> descends and hands the
  triangles of a leaf over with \<open>contained = false\<close>. The primitive test of the
  source always returns \<open>false\<close>, so the traversal never stops early; the function
  returns the calls of the primitive test in order.\<close>

fun shapecast :: "(box3 \<Rightarrow> shape_result) \<Rightarrow> bvh \<Rightarrow> (prim \<times> bool) list" where
  "shapecast f (Leaf bx ps) =
     (case f bx of
        NOT_INTERSECTED \<Rightarrow> []
      | INTERSECTED \<Rightarrow> map (\<lambda>p. (p, False)) ps
      | CONTAINED \<Rightarrow> map (\<lambda>p. (p, True)) ps)"
| "shapecast f (Node bx l r) =
     (case f bx of
        NOT_INTERSECTED \<Rightarrow> []
      | INTERSECTED \<Rightarrow> shapecast f l @ shapecast f r
      | CONTAINED \<Rightarrow> map (\<lambda>p. (p, True)) (prims_of l @ prims_of r))"

subsection \<open>One stroke (lines 249 to 377)\<close>

record params =
  size_param :: real
  intensity :: real
  flatShading :: bool
  depth :: real
  displayHelper :: bool

text \<open>The first entry of \<open>raycaster.intersectObject\<close>: \<open>hit.point\<close> and
  \<open>hit.face.normal\<close>.\<close>

record hit =
  point :: vec3
  face_normal :: vec3

text \<open>The mesh's world matrix and the matrix \<open>inverseMatrix\<close> that the source obtains
  from it with \<open>Matrix4.invert\<close>. The inversion itself is three.js code and is not
  modelled: both matrices are given. \<open>init\<close> creates the mesh and adds it to the
  scene without moving, turning or scaling it, and nothing else writes its
  transform: in the program both matrices are the identity.\<close>

record transform =
  matrixWorld :: mat4
  inverseMatrix :: mat4

text \<open>Lines 252 to 254: the brush as a sphere in the space of the mesh.\<close>

definition brushSphere :: "transform \<Rightarrow> params \<Rightarrow> hit \<Rightarrow> sphere option" where
  "brushSphere m p h =
     (case applyMatrix4 (point h) (inverseMatrix m) of
        None \<Rightarrow> None
      | Some c \<Rightarrow> Some \<lparr>center = c, radius = size_param p\<rparr>)"

text \<open>The primitive test (lines 299 to 309), with \<open>indices\<close> as its state.\<close>

definition primitiveTest :: "sphere \<Rightarrow> nat list \<Rightarrow> prim \<times> bool \<Rightarrow> nat list" where
  "primitiveTest s indices call =
     (if snd call \<or> intersectsSphere (tri (fst call)) s
      then indices @ [pa (fst call), pb (fst call), pc (fst call)]
      else indices)"

definition regionQuery :: "sphere \<Rightarrow> bvh \<Rightarrow> nat list" where
  "regionQuery s t = foldl (primitiveTest s) [] (shapecast (regionTest s) t)"

text \<open>\<open>new Set (indices)\<close>: a JavaScript \<open>Set\<close> keeps each element once, in the order
  of first insertion, and \<open>forEach\<close> visits it in that order.\<close>

definition Set_add :: "nat list \<Rightarrow> nat \<Rightarrow> nat list" where
  "Set_add s i = (if i \<in> set s then s else s @ [i])"

definition new_Set :: "nat list \<Rightarrow> nat list" where
  "new_Set indices = foldl Set_add [] indices"

text \<open>\<open>~ ~ x\<close> on an integer-valued number: the value modulo \<open>2^32\<close>, read as a signed
  32-bit integer.\<close>

definition toInt32 :: "int \<Rightarrow> int" where
  "toInt32 n = (n + 2147483648) mod 4294967296 - 2147483648"

text \<open>\<open>indexToTriangles\<close>: an object with numeric keys, each holding an array.\<close>

type_synonym incidence = "(nat \<times> int list) list"

definition pushTriangle :: "incidence \<Rightarrow> nat \<Rightarrow> int \<Rightarrow> incidence" where
  "pushTriangle m index v =
     AList.update index ((case map_of m index of None \<Rightarrow> [] | Some arr \<Rightarrow> arr) @ [v]) m"

text \<open>The body of \<open>indexSet.forEach\<close> (lines 320 to 345). \<open>tempVec2\<close> is the brush
  centre and \<open>tempVec3\<close> the direction, both computed before the loop. With
  \<open>params.size = 0\<close> a vertex at the centre makes \<open>dist / params.size\<close> the quotient
  \<open>0 / 0\<close>, a NaN in the source: the value \<open>None\<close> here.\<close>

definition displaceVertex ::
  "nat list \<Rightarrow> vec3 \<Rightarrow> vec3 \<Rightarrow> params \<Rightarrow> nat \<Rightarrow> vec3 list \<times> incidence
     \<Rightarrow> (vec3 list \<times> incidence) option" where
  "displaceVertex idx tempVec2 tempVec3 p i st =
     (case getX idx i of
        None \<Rightarrow> None
      | Some index \<Rightarrow>
          (case fromBufferAttribute (fst st) index of
             None \<Rightarrow> None
           | Some tempVec \<Rightarrow>
               (let dist = distanceTo tempVec tempVec2 in
                if dist > size_param p then Some st
                else if size_param p = 0 then None
                else
                  (let weight = 1 - dist / size_param p;
                       moved = addScaledVector tempVec tempVec3 (weight * intensity p)
                   in Some (setXYZ (fst st) index moved,
                            pushTriangle (snd st) index (toInt32 (int (i div 3))))))))"

fun forEach :: "('a \<Rightarrow> 's \<Rightarrow> 's option) \<Rightarrow> 'a list \<Rightarrow> 's \<Rightarrow> 's option" where
  "forEach f [] s = Some s"
| "forEach f (x # xs) s = (case f x s of None \<Rightarrow> None | Some s' \<Rightarrow> forEach f xs s')"

definition displacementPass ::
  "nat list \<Rightarrow> vec3 \<Rightarrow> vec3 \<Rightarrow> params \<Rightarrow> nat list \<Rightarrow> vec3 list
     \<Rightarrow> (vec3 list \<times> incidence) option" where
  "displacementPass idx tempVec2 tempVec3 p indexSet pos =
     forEach (displaceVertex idx tempVec2 tempVec3 p) indexSet (pos, [])"

text \<open>Lines 358 to 363: the triangle whose three index entries start at \<open>tri * 3\<close>,
  read from the current positions.\<close>

definition faceNormal :: "nat list \<Rightarrow> vec3 list \<Rightarrow> nat \<Rightarrow> vec3 option" where
  "faceNormal idx pos t =
     (let i3 = t * 3 in
      case getX idx (i3 + 0) of None \<Rightarrow> None | Some ia \<Rightarrow>
      case getX idx (i3 + 1) of None \<Rightarrow> None | Some ib \<Rightarrow>
      case getX idx (i3 + 2) of None \<Rightarrow> None | Some ic \<Rightarrow>
      case fromBufferAttribute pos ia of None \<Rightarrow> None | Some a \<Rightarrow>
      case fromBufferAttribute pos ib of None \<Rightarrow> None | Some b \<Rightarrow>
      case fromBufferAttribute pos ic of None \<Rightarrow> None | Some c \<Rightarrow>
        Some (getNormal a b c))"

text \<open>The inner loop \<open>for (const tri in arr)\<close>: a \<open>for ... in\<close> over an array visits
  its keys \<open>0, 1, ..., arr.length - 1\<close>, so \<open>tri\<close> is a position in \<open>arr\<close>, not the
  number stored there. The sum is scaled by \<open>1 / arr.length\<close>; for an empty array that
  is zero times infinity, a NaN in the source and \<open>None\<close> here.\<close>

definition accumulate :: "nat list \<Rightarrow> vec3 list \<Rightarrow> nat \<Rightarrow> vec3 \<Rightarrow> vec3 option" where
  "accumulate idx pos t tempVec =
     (case faceNormal idx pos t of None \<Rightarrow> None | Some tempVec2 \<Rightarrow> Some (add tempVec tempVec2))"

definition refreshNormal ::
  "nat list \<Rightarrow> vec3 list \<Rightarrow> incidence \<Rightarrow> nat \<Rightarrow> vec3 list \<Rightarrow> vec3 list option" where
  "refreshNormal idx pos m index nrm =
     (case map_of m index of
        None \<Rightarrow> Some nrm
      | Some arr \<Rightarrow>
          if length arr = 0 then None
          else
            (case forEach (accumulate idx pos) [0..<length arr] (Vector3 0 0 0) of
               None \<Rightarrow> None
             | Some tempVec \<Rightarrow>
                 Some (setXYZ nrm index (multiplyScalar tempVec (1 / real (length arr))))))"

text \<open>The outer loop \<open>for (const index in indexToTriangles)\<close>: the numeric keys of an
  object are visited in ascending order.\<close>

definition normalRefreshPass ::
  "nat list \<Rightarrow> vec3 list \<Rightarrow> incidence \<Rightarrow> vec3 list \<Rightarrow> vec3 list option" where
  "normalRefreshPass idx pos m nrm = forEach (refreshNormal idx pos m) (sort (map fst m)) nrm"

text \<open>Line 319: the direction \<open>tempVec3\<close> of the displacement.\<close>

definition referenceDirection :: "transform \<Rightarrow> hit \<Rightarrow> vec3" where
  "referenceDirection m h = transformDirection (face_normal h) (matrixWorld m)"

text \<open>The block that runs when the pointer is pressed and the ray hits the mesh.
  Line 318 computes \<open>tempVec2\<close> with the expression that gave \<open>sphere.center\<close>.\<close>

definition stroke :: "transform \<Rightarrow> bvh \<Rightarrow> params \<Rightarrow> hit \<Rightarrow> geometry \<Rightarrow> geometry option" where
  "stroke m t p h g =
     (case brushSphere m p h of
        None \<Rightarrow> None
      | Some s \<Rightarrow>
          (let indices = regionQuery s t;
               indexSet = new_Set indices;
               tempVec2 = center s;
               tempVec3 = referenceDirection m h
           in case displacementPass (indexAttr g) tempVec2 tempVec3 p indexSet (posAttr g) of
                None \<Rightarrow> None
              | Some (pos, indexToTriangles) \<Rightarrow>
                  if indices \<noteq> [] then
                    (case normalRefreshPass (indexAttr g) pos indexToTriangles (normalAttr g) of
                       None \<Rightarrow> None
                     | Some nrm \<Rightarrow> Some (g\<lparr>posAttr := pos, normalAttr := nrm\<rparr>))
                  else Some (g\<lparr>posAttr := pos\<rparr>)))"

subsection \<open>The frame function and the event handlers\<close>

text \<open>The globals that \<open>render\<close> and the handlers of \<open>init\<close> read and write. The
  placement of the brush (scale, position, quaternion) is presentation only and is
  left out; its visibility and the switch of the orbit controls are kept.\<close>

record state =
  targetGeometry :: geometry
  boundsTree :: bvh
  meshTransform :: transform
  mouseState :: bool
  lastMouseState :: bool
  parameters :: params
  controls_active :: bool
  controls_enabled :: bool
  brush_visible :: bool

text \<open>\<open>render\<close> (lines 222 to 397). The argument \<open>h\<close> is what the raycaster answers for
  this frame: \<open>None\<close> when the ray misses the mesh.\<close>

definition render :: "hit option \<Rightarrow> state \<Rightarrow> state option" where
  "render h s =
     (let r =
        (if controls_active s then Some (s\<lparr>brush_visible := False\<rparr>)
         else
           (case h of
              Some ht \<Rightarrow>
                (let s1 = s\<lparr>brush_visible := True, controls_enabled := False\<rparr> in
                 if mouseState s \<or> lastMouseState s then
                   (case stroke (meshTransform s) (boundsTree s) (parameters s) ht
                           (targetGeometry s) of
                      None \<Rightarrow> None
                    | Some g \<Rightarrow> Some (s1\<lparr>targetGeometry := g\<rparr>))
                 else Some s1)
            | None \<Rightarrow> Some (s\<lparr>controls_enabled := True, brush_visible := False\<rparr>)))
      in case r of None \<Rightarrow> None
         | Some s' \<Rightarrow> Some (s'\<lparr>lastMouseState := mouseState s'\<rparr>))"

text \<open>The handlers installed by \<open>init\<close>. The two sliders (lines 124 and 125) are
  number controllers of the dat.GUI library, created with \<open>min\<close>, \<open>max\<close> and \<open>step\<close>.
  The controller is library code; as in its \<open>setValue\<close>, a value below \<open>min\<close> becomes
  \<open>min\<close>, a value above \<open>max\<close> becomes \<open>max\<close>, and the result is rounded to a multiple
  of the step (\<open>Math.round (v / step) * step\<close>) before it is stored in \<open>params\<close>.\<close>

definition controllerValue :: "real \<Rightarrow> real \<Rightarrow> real \<Rightarrow> real \<Rightarrow> real" where
  "controllerValue lo hi stp v =
     (let v1 = (if v < lo then lo else if v > hi then hi else v)
      in of_int \<lfloor>v1 / stp + 1 / 2\<rfloor> * stp)"

text \<open>The \<open>wheel\<close> handler (lines 197 to 218).\<close>

definition wheel :: "real \<Rightarrow> nat \<Rightarrow> params \<Rightarrow> params" where
  "wheel deltaY deltaMode p =
     (let delta0 = deltaY;
          delta1 = (if deltaMode = 1 then delta0 * 40 else delta0);
          delta = (if deltaMode = 2 then delta1 * 40 else delta1);
          size1 = size_param p + delta * (5 / 10000)
      in p\<lparr>size_param := max (min size1 (25 / 100)) (5 / 100)\<rparr>)"

datatype event =
    Wheel real nat
  | GuiSize real
  | GuiIntensity real
  | MouseButton bool
  | ControlsStart
  | ControlsEnd

fun handle :: "event \<Rightarrow> state \<Rightarrow> state" where
  "handle (Wheel deltaY deltaMode) s = s\<lparr>parameters := wheel deltaY deltaMode (parameters s)\<rparr>"
| "handle (GuiSize v) s =
     s\<lparr>parameters := (parameters s)\<lparr>size_param := controllerValue (5 / 100) (25 / 100) (1 / 100) v\<rparr>\<rparr>"
| "handle (GuiIntensity v) s =
     s\<lparr>parameters := (parameters s)\<lparr>intensity := controllerValue (1 / 1000) (1 / 100) (1 / 1000) v\<rparr>\<rparr>"
| "handle (MouseButton pressed) s = s\<lparr>mouseState := pressed\<rparr>"
| "handle ControlsStart s = s\<lparr>controls_active := True\<rparr>"
| "handle ControlsEnd s = s\<lparr>controls_active := False\<rparr>"

text \<open>A session: events between frames, and frames with the raycaster's answer.\<close>

datatype step = Event event | Frame "hit option"

fun run :: "step list \<Rightarrow> state \<Rightarrow> state option" where
  "run [] s = Some s"
| "run (Event e # rest) s = run rest (handle e s)"
| "run (Frame h # rest) s = (case render h s of None \<Rightarrow> None | Some s' \<Rightarrow> run rest s')"

text \<open>The parameters as \<open>init\<close> leaves them (lines 32 to 38).\<close>

definition initialParams :: params where
  "initialParams =
     \<lparr>size_param = 1 / 10, intensity = 2 / 1000, flatShading = True, depth = 10,
      displayHelper = False\<rparr>"

section \<open>Vocabulary of the properties\<close>









text \<open>What one visit of the loop body does to the position it reads.\<close>

definition displaceOnce :: "vec3 \<Rightarrow> vec3 \<Rightarrow> params \<Rightarrow> vec3 \<Rightarrow> vec3" where
  "displaceOnce c d p x =
     (if distanceTo x c > size_param p then x
      else addScaledVector x d ((1 - distanceTo x c / size_param p) * intensity p))"

text \<open>How many of \<open>n\<close> successive visits of a position pass the distance test.\<close>

fun pushes :: "vec3 \<Rightarrow> vec3 \<Rightarrow> params \<Rightarrow> nat \<Rightarrow> vec3 \<Rightarrow> nat" where
  "pushes c d p 0 x = 0"
| "pushes c d p (Suc n) x =
     (if distanceTo x c > size_param p then 0 else 1) + pushes c d p n (displaceOnce c d p x)"

text \<open>How many entries of the set resolve to vertex \<open>v\<close>.\<close>

definition visits :: "nat list \<Rightarrow> nat list \<Rightarrow> nat \<Rightarrow> nat" where
  "visits idx indexSet v = length (filter (\<lambda>i. idx ! i = v) indexSet)"

text \<open>A visit that the model cannot follow: a read outside a buffer, or the quotient
  \<open>0 / 0\<close>.\<close>

definition visitFails :: "nat list \<Rightarrow> vec3 \<Rightarrow> params \<Rightarrow> vec3 list \<Rightarrow> nat \<Rightarrow> bool" where
  "visitFails idx c p pos i \<longleftrightarrow>
     (if i < length idx \<and> idx ! i < length pos
      then size_param p = 0 \<and> distanceTo (pos ! (idx ! i)) c \<le> 0
      else True)"

definition arrayLength :: "incidence \<Rightarrow> nat \<Rightarrow> nat option" where
  "arrayLength m v = map_option length (map_of m v)"

fun addCount :: "nat option \<Rightarrow> nat \<Rightarrow> nat option" where
  "addCount c 0 = c"
| "addCount c (Suc n) = Some ((case c of None \<Rightarrow> 0 | Some k \<Rightarrow> k) + Suc n)"

text \<open>The vector that the normal pass writes for an array of length \<open>k\<close>: the sum of the
  face normals of the triangles \<open>0, ..., k - 1\<close> of the index buffer, divided by
  \<open>k\<close>.\<close>

definition meanOfFirst :: "nat list \<Rightarrow> vec3 list \<Rightarrow> nat \<Rightarrow> vec3 option" where
  "meanOfFirst idx pos k =
     (if k = 0 then None
      else
        (case forEach (accumulate idx pos) [0..<k] (Vector3 0 0 0) of
           None \<Rightarrow> None
         | Some tempVec \<Rightarrow> Some (multiplyScalar tempVec (1 / real k))))"

definition refreshable :: "nat list \<Rightarrow> vec3 list \<Rightarrow> incidence \<Rightarrow> nat \<Rightarrow> bool" where
  "refreshable idx pos m j \<longleftrightarrow>
     (case arrayLength m j of None \<Rightarrow> True | Some k \<Rightarrow> meanOfFirst idx pos k \<noteq> None)"

definition refreshed :: "nat list \<Rightarrow> vec3 list \<Rightarrow> incidence \<Rightarrow> nat \<Rightarrow> vec3 \<Rightarrow> vec3" where
  "refreshed idx pos m j old =
     (case arrayLength m j of None \<Rightarrow> old | Some k \<Rightarrow> the (meanOfFirst idx pos k))"




text \<open>A session in which every frame runs while the orbit controls are active or the
  ray misses the mesh.\<close>

fun idleRun :: "step list \<Rightarrow> state \<Rightarrow> bool" where
  "idleRun [] s = True"
| "idleRun (Event e # rest) s = idleRun rest (handle e s)"
| "idleRun (Frame h # rest) s = ((controls_active s \<or> h = None) \<and> idleRun rest s)"

text \<open>The ranges of the two sliders.\<close>

definition validParams :: "params \<Rightarrow> bool" where
  "validParams p \<longleftrightarrow>
     5 / 100 \<le> size_param p \<and> size_param p \<le> 25 / 100 \<and>
     1 / 1000 \<le> intensity p \<and> intensity p \<le> 1 / 100"

section \<open>Concrete inputs\<close>

definition identityTransform :: transform where
  "identityTransform = \<lparr>matrixWorld = identity, inverseMatrix = identity\<rparr>"





text \<open>Two triangles in the plane \<open>z = 0\<close> that share the vertices \<open>0\<close> and \<open>2\<close>; the
  normal stored for vertex \<open>0\<close> is stale. The tree is one leaf; the traversal hands
  over the three index entries of each triangle.\<close>

definition fanGeometry :: geometry where
  "fanGeometry =
     \<lparr>indexAttr = [0, 1, 2, 0, 2, 3],
      posAttr = [Vector3 0 0 0, Vector3 1 0 0, Vector3 0 1 0, Vector3 (- 1) 0 0],
      normalAttr = [Vector3 1 0 0, Vector3 0 0 1, Vector3 0 0 1, Vector3 0 0 1]\<rparr>"

definition fanTree :: bvh where
  "fanTree =
     Leaf \<lparr>bmin = Vector3 (- 1) 0 0, bmax = Vector3 1 1 0\<rparr>
       [\<lparr>tri = Triangle (Vector3 0 0 0) (Vector3 1 0 0) (Vector3 0 1 0), pa = 0, pb = 1, pc = 2\<rparr>,
        \<lparr>tri = Triangle (Vector3 0 0 0) (Vector3 0 1 0) (Vector3 (- 1) 0 0), pa = 3, pb = 4, pc = 5\<rparr>]"

definition fanTreeSwapped :: bvh where
  "fanTreeSwapped =
     Leaf \<lparr>bmin = Vector3 (- 1) 0 0, bmax = Vector3 1 1 0\<rparr>
       [\<lparr>tri = Triangle (Vector3 0 0 0) (Vector3 0 1 0) (Vector3 (- 1) 0 0), pa = 3, pb = 4, pc = 5\<rparr>,
        \<lparr>tri = Triangle (Vector3 0 0 0) (Vector3 1 0 0) (Vector3 0 1 0), pa = 0, pb = 1, pc = 2\<rparr>]"

definition fanHit :: hit where
  "fanHit = \<lparr>point = Vector3 0 0 0, face_normal = Vector3 0 0 1\<rparr>"

text \<open>Two triangles with no common vertex: triangle \<open>0\<close> far from the brush in the
  plane \<open>z = 0\<close>, triangle \<open>1\<close> in the plane \<open>x = 0\<close> with vertex \<open>3\<close> at the brush
  centre. The normals stored for the vertices of triangle \<open>1\<close> are stale.\<close>

definition pairGeometry :: geometry where
  "pairGeometry =
     \<lparr>indexAttr = [0, 1, 2, 3, 4, 5],
      posAttr = [Vector3 10 0 0, Vector3 11 0 0, Vector3 10 1 0,
                 Vector3 0 0 0, Vector3 0 3 0, Vector3 0 3 4],
      normalAttr = [Vector3 0 0 1, Vector3 0 0 1, Vector3 0 0 1,
                    Vector3 0 1 0, Vector3 0 1 0, Vector3 0 1 0]\<rparr>"

definition pairTree :: bvh where
  "pairTree =
     Leaf \<lparr>bmin = Vector3 0 0 0, bmax = Vector3 11 3 4\<rparr>
       [\<lparr>tri = Triangle (Vector3 10 0 0) (Vector3 11 0 0) (Vector3 10 1 0), pa = 0, pb = 1, pc = 2\<rparr>,
        \<lparr>tri = Triangle (Vector3 0 0 0) (Vector3 0 3 0) (Vector3 0 3 4), pa = 3, pb = 4, pc = 5\<rparr>]"

definition pairHit :: hit where
  "pairHit = \<lparr>point = Vector3 0 0 0, face_normal = Vector3 1 0 0\<rparr>"

text \<open>The pair after one stroke with the initial parameters.\<close>

definition pairResult :: geometry where
  "pairResult =
     \<lparr>indexAttr = [0, 1, 2, 3, 4, 5],
      posAttr = [Vector3 10 0 0, Vector3 11 0 0, Vector3 10 1 0,
                 Vector3 (1 / 500) 0 0, Vector3 0 3 0, Vector3 0 3 4],
      normalAttr = [Vector3 0 0 1, Vector3 0 0 1, Vector3 0 0 1,
                    Vector3 0 0 1, Vector3 0 1 0, Vector3 0 1 0]\<rparr>"


text \<open>The program as \<open>init\<close> leaves it, pointer released and mesh not transformed,
  with the fan and with the pair as its mesh.\<close>

definition exampleState :: state where
  "exampleState =
     \<lparr>targetGeometry = fanGeometry, boundsTree = fanTree, meshTransform = identityTransform,
      mouseState = False, lastMouseState = False, parameters = initialParams,
      controls_active = False, controls_enabled = True, brush_visible = False\<rparr>"


section \<open>Auxiliary lemmas\<close>

subsection \<open>Rounding to doubles\<close>

lemma rhe_bounds: "\<lfloor>y\<rfloor> \<le> roundHalfEven y" "roundHalfEven y \<le> \<lfloor>y\<rfloor> + 1"
  by (simp_all add: roundHalfEven_def Let_def)

lemma rhe_int: "roundHalfEven (of_int n) = n"
  by (simp add: roundHalfEven_def Let_def)

lemma rhe_mono:
  assumes "x \<le> y"
  shows "roundHalfEven x \<le> roundHalfEven y"
proof (cases "\<lfloor>x\<rfloor> = \<lfloor>y\<rfloor>")
  case True
  then show ?thesis using assms by (auto simp: roundHalfEven_def Let_def)
next
  case False
  then have "\<lfloor>x\<rfloor> + 1 \<le> \<lfloor>y\<rfloor>" using floor_mono[OF assms] by linarith
  then show ?thesis using rhe_bounds(2)[of x] rhe_bounds(1)[of y] by linarith
qed

lemma ulp_pos: "0 < ulp x"
  by (simp add: ulp_def)

lemma binade_upper:
  assumes "x \<noteq> 0"
  shows "\<bar>x\<bar> < 2 powr (of_int (binade x) + 1)"
proof -
  have "log 2 \<bar>x\<bar> < of_int \<lfloor>log 2 \<bar>x\<bar>\<rfloor> + 1" by linarith
  also have "\<dots> \<le> of_int (binade x) + 1" by (simp add: binade_def)
  finally show ?thesis using assms by (simp add: log_less_iff)
qed



lemma powr_shift: "(2::real) powr a * 2 powr b = 2 powr (a + b)"
  by (simp add: powr_add)

lemma ulp_scale:
  "of_int (2 ^ 53) * ulp x = 2 powr (of_int (binade x) + 1)"
  "of_int (2 ^ 52) * ulp x = 2 powr of_int (binade x)"
proof -
  have a: "real_of_int (2 ^ 53) = 2 powr 53" and b: "real_of_int (2 ^ 52) = 2 powr 52" by simp_all
  have c: "53 + (real_of_int (binade x) - 52) = of_int (binade x) + 1"
    and d: "52 + (real_of_int (binade x) - 52) = of_int (binade x)" by simp_all
  show "of_int (2 ^ 53) * ulp x = 2 powr (of_int (binade x) + 1)"
    unfolding a ulp_def powr_shift c ..
  show "of_int (2 ^ 52) * ulp x = 2 powr of_int (binade x)"
    unfolding b ulp_def powr_shift d ..
qed





lemma toDouble_nearest: "x \<noteq> 0 \<Longrightarrow> toDouble x = max (- infinity) (min infinity (nearest x))"
  by (simp add: toDouble_def)


lemma saturate_id: "\<bar>y\<bar> \<le> (m::real) \<Longrightarrow> max (- m) (min m y) = y"
  by (auto simp: max_def min_def)

lemma toDouble_zero: "toDouble 0 = 0"
  by (simp add: toDouble_def)




lemma nearest_abs:
  assumes "x \<noteq> 0"
  shows "\<bar>nearest x\<bar> \<le> 2 powr (of_int (binade x) + 1)"
proof -
  have b: "\<bar>x\<bar> / ulp x \<le> of_int (2 ^ 53)"
  proof -
    have "\<bar>x\<bar> / ulp x \<le> 2 powr (of_int (binade x) + 1) / ulp x"
      using binade_upper[OF assms] ulp_pos[of x] by (simp add: divide_right_mono)
    also have "\<dots> = of_int (2 ^ 53)"
      using ulp_scale(1)[of x] ulp_pos[of x] by (simp add: field_simps)
    finally show ?thesis .
  qed
  have "x / ulp x \<le> of_int (2 ^ 53)" and "of_int (- (2 ^ 53)) \<le> x / ulp x"
    using b ulp_pos[of x] by (simp_all add: field_simps abs_if split: if_splits)
  then have "roundHalfEven (x / ulp x) \<le> 2 ^ 53" and "- (2 ^ 53) \<le> roundHalfEven (x / ulp x)"
    using rhe_mono rhe_int by metis+
  then have "\<bar>real_of_int (roundHalfEven (x / ulp x))\<bar> \<le> of_int (2 ^ 53)"
    by linarith
  then have "\<bar>real_of_int (roundHalfEven (x / ulp x))\<bar> * ulp x \<le> of_int (2 ^ 53) * ulp x"
    using ulp_pos[of x] by (simp only: mult_le_cancel_right_pos)
  then show ?thesis
    unfolding ulp_scale(1) using ulp_pos[of x] by (simp add: nearest_def abs_mult)
qed

lemma toDouble_unsaturated:
  assumes "x \<noteq> 0" and "binade x \<le> 1022"
  shows "toDouble x = nearest x"
proof -
  have "(2::real) powr (of_int (binade x) + 1) \<le> 2 powr 1023"
    by (rule powr_mono) (use assms(2) in simp_all)
  also have "\<dots> \<le> infinity" by (simp add: infinity_def)
  finally have "\<bar>nearest x\<bar> \<le> infinity" using nearest_abs[OF assms(1)] by linarith
  then show ?thesis using assms(1) by (simp add: toDouble_nearest saturate_id)
qed

text \<open>The double of a number in a known binade \<open>2^e \<le> |x| < 2^(e + 1)\<close>.\<close>

lemma toDouble_binade:
  assumes "2 powi e \<le> \<bar>x\<bar>" and "\<bar>x\<bar> < 2 powi (e + 1)" and "- 1022 \<le> e" and "e \<le> 1022"
  shows "toDouble x = of_int (roundHalfEven (x / 2 powi (e - 52))) * 2 powi (e - 52)"
proof -
  have pos: "0 < (2::real) powi e" by simp
  have nz: "x \<noteq> 0"
  proof
    assume "x = 0"
    then have "\<bar>x\<bar> = 0" by simp
    with assms(1) pos show False by linarith
  qed
  have p: "(2::real) powr (of_int i) = 2 powi i" for i
    by (simp add: powr_real_of_int')
  have "\<lfloor>log 2 \<bar>x\<bar>\<rfloor> = e"
    using nz assms(1,2) floor_log_eq_powr_iff[of "\<bar>x\<bar>" 2 e] p[of e] p[of "e + 1"] by simp
  then have b: "binade x = e" using assms(3) by (simp add: binade_def)
  have u: "ulp x = 2 powi (e - 52)"
    using p[of "e - 52"] by (simp add: ulp_def b)
  have "toDouble x = nearest x" by (rule toDouble_unsaturated[OF nz]) (simp add: b assms(4))
  then show ?thesis by (simp add: nearest_def u)
qed

text \<open>A number with at most 53 significant bits, not below the smallest subnormal
  step, is a double.\<close>

lemma toDouble_dyadic:
  assumes "\<bar>m\<bar> < 2 ^ 53" and "k \<le> 1074"
  shows "toDouble (of_int m / 2 ^ k) = of_int m / 2 ^ k"
proof (cases "m = 0")
  case True
  then show ?thesis by (simp add: toDouble_zero)
next
  case False
  let ?x = "real_of_int m / 2 ^ k"
  have nz: "?x \<noteq> 0" using False by simp
  have p: "(2::real) powr (53 - real k) = 2 ^ 53 / 2 ^ k"
    by (simp add: powr_diff powr_realpow)
  have "\<bar>real_of_int m\<bar> < 2 ^ 53" using assms(1) by (metis of_int_abs of_int_less_iff of_int_numeral of_int_power)
  then have lt: "\<bar>?x\<bar> < 2 powr (53 - real k)"
    by (simp add: p divide_strict_right_mono abs_divide del: of_int_abs)
  then have "log 2 \<bar>?x\<bar> < 53 - real k" using nz by (simp add: log_less_iff)
  then have "\<lfloor>log 2 \<bar>?x\<bar>\<rfloor> < 53 - int k" by linarith
  then have ble: "binade ?x \<le> 52 - int k" using assms(2) by (simp add: binade_def)
  define d where "d = nat (52 - int k - binade ?x)"
  have de: "int d = 52 - int k - binade ?x" using ble by (simp add: d_def)
  have "?x / ulp ?x = of_int m * (2 powr (- real k) / 2 powr (of_int (binade ?x) - 52))"
    by (simp add: ulp_def powr_minus powr_realpow divide_inverse)
  also have "2 powr (- real k) / 2 powr (of_int (binade ?x) - 52) = 2 powr (real d)"
    unfolding powr_diff[symmetric] using de by (intro arg_cong[of _ _ "\<lambda>e. 2 powr e"]) linarith
  also have "\<dots> = 2 ^ d" by (simp add: powr_realpow)
  finally have i: "?x / ulp ?x = of_int (m * 2 ^ d)" by simp
  have "nearest ?x = of_int (m * 2 ^ d) * ulp ?x"
    unfolding nearest_def i rhe_int ..
  also have "\<dots> = ?x / ulp ?x * ulp ?x" by (simp only: i)
  also have "\<dots> = ?x" using ulp_pos[of ?x] by simp
  finally have n: "nearest ?x = ?x" .
  have "binade ?x \<le> 1022" using ble by linarith
  from toDouble_unsaturated[OF nz this] n show ?thesis by simp
qed

lemma toDouble_int: "\<bar>m\<bar> < 2 ^ 53 \<Longrightarrow> toDouble (of_int m) = of_int m"
  using toDouble_dyadic[of m 0] by simp

lemma toDouble_numeral:
  "numeral w < (2::int) ^ 53 \<Longrightarrow> toDouble (numeral w) = numeral w"
  "numeral w < (2::int) ^ 53 \<Longrightarrow> toDouble (- numeral w) = - numeral w"
  "toDouble 1 = 1" "toDouble (- 1) = - 1"
  using toDouble_int[of "numeral w"] toDouble_int[of "- numeral w"] toDouble_int[of 1]
    toDouble_int[of "- 1"] by simp_all

text \<open>Two roundings of numbers that are not doubles: \<open>0.1 * 0.1\<close> taken exactly, and
  a whole number with more than 53 bits.\<close>

lemma toDouble_hundredth: "toDouble (1 / 100) = 5764607523034235 / 576460752303423488"
  by (subst toDouble_binade[where e = "- 7"]) (simp_all add: roundHalfEven_def Let_def)

lemma toDouble_large: "toDouble 12345678901234567890 = 12345678901234567168"
  by (subst toDouble_binade[where e = 63]) (simp_all add: roundHalfEven_def Let_def)




subsection \<open>Spheres and boxes\<close>

lemma distanceToSquared_nonneg: "0 \<le> distanceToSquared u v"
  by (simp add: distanceToSquared_def)





















subsection \<open>The displacement loop\<close>

lemma displaceVertex_Some:
  "displaceVertex idx c d p i (pos, m) = Some (pos', m') \<longleftrightarrow>
     i < length idx \<and> idx ! i < length pos \<and>
     \<not> (size_param p = 0 \<and> distanceTo (pos ! (idx ! i)) c \<le> 0) \<and>
     pos' = pos[idx ! i := displaceOnce c d p (pos ! (idx ! i))] \<and>
     m' = (if distanceTo (pos ! (idx ! i)) c > size_param p then m
           else pushTriangle m (idx ! i) (toInt32 (int (i div 3))))"
  by (auto simp: displaceVertex_def getX_def fromBufferAttribute_def displaceOnce_def
      setXYZ_def Let_def)

lemma displaceVertex_None:
  "displaceVertex idx c d p i (pos, m) = None \<longleftrightarrow> visitFails idx c p pos i"
  by (auto simp: displaceVertex_def getX_def fromBufferAttribute_def visitFails_def Let_def)

lemma arrayLength_pushTriangle:
  "arrayLength (pushTriangle m v x) w =
     (if w = v then addCount (arrayLength m v) 1 else arrayLength m w)"
  by (auto simp: arrayLength_def pushTriangle_def update_conv' split: option.splits)

lemma distinct_pushTriangle:
  "distinct (map fst m) \<Longrightarrow> distinct (map fst (pushTriangle m v x))"
  by (simp add: pushTriangle_def distinct_update)

lemma addCount_add: "addCount (addCount c a) b = addCount c (a + b)"
  by (cases a; cases b) (auto split: option.splits)


lemma visits_Cons:
  "visits idx (i # is) v = (if idx ! i = v then Suc (visits idx is v) else visits idx is v)"
  by (simp add: visits_def)

lemma visits_Nil: "visits idx [] v = 0"
  by (simp add: visits_def)


lemma visits_mset: "mset is1 = mset is2 \<Longrightarrow> visits idx is1 v = visits idx is2 v"
  unfolding visits_def by (metis mset_filter size_mset)



text \<open>The loop, visit by visit: where it returns, every vertex has been displaced once
  per entry of the set that resolves to it, each time from the position the previous
  visit left, and its array has grown by one for every visit within the radius.\<close>

lemma forEach_displace:
  assumes "forEach (displaceVertex idx c d p) is (pos, m) = Some (pos', m')"
  shows "length pos' = length pos
       \<and> (\<forall>v. pos' ! v = (displaceOnce c d p ^^ visits idx is v) (pos ! v))
       \<and> (\<forall>v. arrayLength m' v
                = addCount (arrayLength m v) (pushes c d p (visits idx is v) (pos ! v)))
       \<and> (distinct (map fst m) \<longrightarrow> distinct (map fst m'))"
  using assms
proof (induction "is" arbitrary: pos m)
  case Nil
  then show ?case by (simp add: visits_Nil)
next
  case (Cons i "is")
  from Cons.prems obtain pos1 m1 where
    step: "displaceVertex idx c d p i (pos, m) = Some (pos1, m1)" and
    rest: "forEach (displaceVertex idx c d p) is (pos1, m1) = Some (pos', m')"
    by (auto split: option.splits)
  let ?v0 = "idx ! i"
  from step have r: "i < length idx" "?v0 < length pos"
    and pos1: "pos1 = pos[?v0 := displaceOnce c d p (pos ! ?v0)]"
    and m1: "m1 = (if distanceTo (pos ! ?v0) c > size_param p then m
             else pushTriangle m ?v0 (toInt32 (int (i div 3))))"
    by (simp_all add: displaceVertex_Some)
  note IH = Cons.IH[OF rest]
  have len: "length pos' = length pos" using IH pos1 by simp
  have posv: "pos' ! v = (displaceOnce c d p ^^ visits idx (i # is) v) (pos ! v)" for v
  proof (cases "v = ?v0")
    case True
    then show ?thesis using IH pos1 r by (simp add: visits_Cons funpow_swap1)
  next
    case False
    then show ?thesis using IH pos1 by (simp add: visits_Cons)
  qed
  have cnt: "arrayLength m' v
        = addCount (arrayLength m v) (pushes c d p (visits idx (i # is) v) (pos ! v))" for v
  proof (cases "v = ?v0")
    case True
    have "arrayLength m' v = addCount (arrayLength m1 v) (pushes c d p (visits idx is v) (pos1 ! v))"
      using IH by blast
    also have "pos1 ! v = displaceOnce c d p (pos ! v)" using pos1 r True by simp
    also have "arrayLength m1 v
        = addCount (arrayLength m v) (if distanceTo (pos ! v) c > size_param p then 0 else 1)"
      using m1 True by (simp add: arrayLength_pushTriangle)
    finally show ?thesis using True by (simp add: visits_Cons addCount_add)
  next
    case False
    have "arrayLength m' v = addCount (arrayLength m1 v) (pushes c d p (visits idx is v) (pos1 ! v))"
      using IH by blast
    moreover have "pos1 ! v = pos ! v" using pos1 False by simp
    moreover have "arrayLength m1 v = arrayLength m v"
      using m1 False by (simp add: arrayLength_pushTriangle)
    ultimately show ?thesis using False by (simp add: visits_Cons)
  qed
  have dist: "distinct (map fst m) \<longrightarrow> distinct (map fst m')"
    using IH m1 by (auto simp: distinct_pushTriangle)
  from len posv cnt dist show ?case by blast
qed

text \<open>Whether the loop can be followed depends on the set alone, not on its order.\<close>

lemma forEach_displace_None:
  "forEach (displaceVertex idx c d p) is (pos, m) = None
     \<longleftrightarrow> (\<exists>i\<in>set is. visitFails idx c p pos i)"
proof (induction "is" arbitrary: pos m)
  case Nil
  then show ?case by simp
next
  case (Cons i "is")
  show ?case
  proof (cases "displaceVertex idx c d p i (pos, m)")
    case None
    then have "visitFails idx c p pos i" by (simp add: displaceVertex_None)
    with None show ?thesis by simp
  next
    case (Some st)
    obtain pos1 m1 where st: "st = (pos1, m1)" by (cases st)
    from Some st have ok: "\<not> visitFails idx c p pos i"
      using displaceVertex_None[of idx c d p i pos m] by simp
    from Some st have pos1: "pos1 = pos[idx ! i := displaceOnce c d p (pos ! (idx ! i))]"
      and r: "i < length idx" "idx ! i < length pos"
      by (simp_all add: displaceVertex_Some)
    have same: "visitFails idx c p pos1 j = visitFails idx c p pos j" for j
    proof (cases "size_param p = 0")
      case True
      with ok r have "distanceTo (pos ! (idx ! i)) c > size_param p"
        by (simp add: visitFails_def)
      then have "pos1 = pos" using pos1 by (simp add: displaceOnce_def)
      then show ?thesis by simp
    next
      case False
      then show ?thesis using pos1 by (simp add: visitFails_def)
    qed
    from Cons.IH[of pos1 m1] Some st ok same show ?thesis by simp
  qed
qed

subsection \<open>The normal loop\<close>

lemma refreshNormal_alt:
  "refreshNormal idx pos m j nrm =
     (case arrayLength m j of
        None \<Rightarrow> Some nrm
      | Some k \<Rightarrow> map_option (\<lambda>v. nrm[j := v]) (meanOfFirst idx pos k))"
  by (auto simp: refreshNormal_def arrayLength_def meanOfFirst_def setXYZ_def
      split: option.splits)

text \<open>The pass as a whole: it returns when every key can be refreshed, and then the
  entries of the normal array at the keys hold the refreshed vectors and all other
  entries are as before.\<close>

lemma forEach_refresh:
  "forEach (refreshNormal idx pos m) ks nrm =
     (if list_all (refreshable idx pos m) ks
      then Some (map (\<lambda>j. if j \<in> set ks then refreshed idx pos m j (nrm ! j) else nrm ! j)
                   [0..<length nrm])
      else None)"
proof (induction ks arbitrary: nrm)
  case Nil
  then show ?case by (simp add: map_nth)
next
  case (Cons k ks)
  show ?case
  proof (cases "arrayLength m k")
    case None
    then have "refreshNormal idx pos m k nrm = Some nrm" by (simp add: refreshNormal_alt)
    moreover have "refreshable idx pos m k" using None by (simp add: refreshable_def)
    moreover have "refreshed idx pos m k old = old" for old using None by (simp add: refreshed_def)
    ultimately show ?thesis using Cons.IH[of nrm] by auto
  next
    case (Some n)
    note len = this
    show ?thesis
    proof (cases "meanOfFirst idx pos n")
      case None
      then have "refreshNormal idx pos m k nrm = None" using len by (simp add: refreshNormal_alt)
      moreover have "\<not> refreshable idx pos m k" using None len by (simp add: refreshable_def)
      ultimately show ?thesis by simp
    next
      case (Some v)
      have step: "refreshNormal idx pos m k nrm = Some (nrm[k := v])"
        using Some len by (simp add: refreshNormal_alt)
      have ok: "refreshable idx pos m k"
        using Some len by (simp add: refreshable_def)
      have val: "refreshed idx pos m k old = v" for old
        using Some len by (simp add: refreshed_def)
      have pt: "(if j \<in> set ks then refreshed idx pos m j (nrm[k := v] ! j) else nrm[k := v] ! j)
          = (if j \<in> set (k # ks) then refreshed idx pos m j (nrm ! j) else nrm ! j)"
        if "j < length nrm" for j
      proof (cases "j = k")
        case True
        then show ?thesis using that by (simp add: val)
      next
        case False
        then show ?thesis by simp
      qed
      have "map (\<lambda>j. if j \<in> set ks then refreshed idx pos m j (nrm[k := v] ! j)
                       else nrm[k := v] ! j) [0..<length (nrm[k := v])]
          = map (\<lambda>j. if j \<in> set (k # ks) then refreshed idx pos m j (nrm ! j) else nrm ! j)
              [0..<length nrm]"
        using pt by simp
      then show ?thesis using step ok Cons.IH[of "nrm[k := v]"] by simp
    qed
  qed
qed

lemma keys_arrayLength: "fst ` set m = {v. arrayLength m v \<noteq> None}"
  by (auto simp: arrayLength_def dom_map_of_conv_image_fst[symmetric] dom_def)

text \<open>The pass reads the incidence map only through its keys and the lengths of its
  arrays.\<close>

lemma refreshPass_cong:
  assumes "distinct (map fst m1)" "distinct (map fst m2)"
    and "\<And>v. arrayLength m1 v = arrayLength m2 v"
  shows "normalRefreshPass idx pos m1 nrm = normalRefreshPass idx pos m2 nrm"
proof -
  have "set (map fst m1) = set (map fst m2)"
    using keys_arrayLength[of m1] keys_arrayLength[of m2] assms(3) by simp
  then have "sort (map fst m1) = sort (map fst m2)"
    using assms(1,2) by (intro sorted_distinct_set_unique) simp_all
  moreover have "refreshable idx pos m1 = refreshable idx pos m2"
    using assms(3) by (simp add: refreshable_def fun_eq_iff)
  moreover have "refreshed idx pos m1 = refreshed idx pos m2"
    using assms(3) by (simp add: refreshed_def fun_eq_iff)
  ultimately show ?thesis by (simp add: normalRefreshPass_def forEach_refresh)
qed






text \<open>Running the pass on its own result changes nothing.\<close>

lemma refreshPass_idem:
  assumes "normalRefreshPass idx pos m nrm = Some nrm'"
  shows "normalRefreshPass idx pos m nrm' = Some nrm'"
proof -
  let ?ks = "sort (map fst m)"
  from assms have ok: "list_all (refreshable idx pos m) ?ks"
    and eq: "nrm' = map (\<lambda>j. if j \<in> set ?ks
        then refreshed idx pos m j (nrm ! j) else nrm ! j) [0..<length nrm]"
    by (simp_all add: normalRefreshPass_def forEach_refresh split: if_splits)
  have r: "refreshed idx pos m j (refreshed idx pos m j old) = refreshed idx pos m j old" for j old
    by (simp add: refreshed_def split: option.splits)
  have len: "length nrm' = length nrm" using eq by simp
  have nth: "nrm' ! j = (if j \<in> set ?ks then refreshed idx pos m j (nrm ! j) else nrm ! j)"
    if "j < length nrm" for j
    using that by (subst eq) simp
  have "map (\<lambda>j. if j \<in> set ?ks then refreshed idx pos m j (nrm' ! j) else nrm' ! j)
          [0..<length nrm'] = nrm'"
    by (rule nth_equalityI) (simp_all add: len nth r)
  then show ?thesis using ok by (simp add: normalRefreshPass_def forEach_refresh)
qed

subsection \<open>Sets of indices\<close>

lemma set_foldl_Set_add: "set (foldl Set_add acc xs) = set acc \<union> set xs"
  by (induction xs arbitrary: acc) (auto simp: Set_add_def)

lemma distinct_foldl_Set_add: "distinct acc \<Longrightarrow> distinct (foldl Set_add acc xs)"
  by (induction xs arbitrary: acc) (auto simp: Set_add_def)

lemma set_new_Set: "set (new_Set xs) = set xs"
  by (simp add: new_Set_def set_foldl_Set_add)

lemma distinct_new_Set: "distinct (new_Set xs)"
  by (simp add: new_Set_def distinct_foldl_Set_add)

lemma mset_new_Set: "set xs = set ys \<Longrightarrow> mset (new_Set xs) = mset (new_Set ys)"
  by (simp add: set_eq_iff_mset_eq_distinct[symmetric] distinct_new_Set set_new_Set)

subsection \<open>One visit and its repetitions\<close>

lemma displaceOnce_direction: "\<exists>k. displaceOnce c d p x = addScaledVector x d k"
proof (cases "distanceTo x c > size_param p")
  case True
  then have "displaceOnce c d p x = addScaledVector x d 0"
    by (cases x) (simp add: displaceOnce_def addScaledVector_def)
  then show ?thesis by blast
next
  case False
  then show ?thesis by (auto simp: displaceOnce_def)
qed

lemma addScaledVector_twice:
  "addScaledVector (addScaledVector x d a) d b = addScaledVector x d (a + b)"
  by (simp add: addScaledVector_def algebra_simps)

lemma funpow_displaceOnce_direction: "\<exists>k. (displaceOnce c d p ^^ n) x = addScaledVector x d k"
proof (induction n)
  case 0
  have "x = addScaledVector x d 0" by (cases x) (simp add: addScaledVector_def)
  then show ?case by auto
next
  case (Suc n)
  then obtain k where k: "(displaceOnce c d p ^^ n) x = addScaledVector x d k" by blast
  obtain k' where
    "displaceOnce c d p (addScaledVector x d k) = addScaledVector (addScaledVector x d k) d k'"
    using displaceOnce_direction by blast
  then show ?case using k by (auto simp: addScaledVector_twice)
qed

lemma displaceOnce_zero_intensity: "intensity p = 0 \<Longrightarrow> displaceOnce c d p x = x"
  by (cases x) (simp add: displaceOnce_def addScaledVector_def)

lemma funpow_fixed: "(\<And>x. f x = x) \<Longrightarrow> (f ^^ n) x = x"
  by (induction n) simp_all

text \<open>A vertex farther from the centre than the radius is never moved, however often
  it is visited.\<close>

lemma outside_radius_fixed:
  "distanceTo x c > size_param p \<Longrightarrow> (displaceOnce c d p ^^ n) x = x"
  by (induction n) (simp_all add: displaceOnce_def)

subsection \<open>The two passes and the stroke\<close>

lemma displacementPass_Some:
  assumes "displacementPass idx c d p is pos = Some (pos', m')"
  shows "length pos' = length pos"
    and "pos' ! v = (displaceOnce c d p ^^ visits idx is v) (pos ! v)"
    and "arrayLength m' v = addCount None (pushes c d p (visits idx is v) (pos ! v))"
    and "distinct (map fst m')"
  using forEach_displace[OF assms[unfolded displacementPass_def]]
  by (simp_all add: arrayLength_def)

lemma displacementPass_None:
  "displacementPass idx c d p is pos = None \<longleftrightarrow> (\<exists>i\<in>set is. visitFails idx c p pos i)"
  by (simp add: displacementPass_def forEach_displace_None)

text \<open>The order in which the set is visited does not matter: two orders fail together,
  or give the same positions and incidence maps with the same keys and array
  lengths.\<close>

lemma displacementPass_perm:
  assumes "mset is1 = mset is2"
  shows "(displacementPass idx c d p is1 pos = None \<and> displacementPass idx c d p is2 pos = None)
       \<or> (\<exists>pos' m1 m2. displacementPass idx c d p is1 pos = Some (pos', m1)
            \<and> displacementPass idx c d p is2 pos = Some (pos', m2)
            \<and> distinct (map fst m1) \<and> distinct (map fst m2)
            \<and> (\<forall>v. arrayLength m1 v = arrayLength m2 v))"
proof (cases "displacementPass idx c d p is1 pos")
  case None
  moreover have "set is1 = set is2" using assms by (metis set_mset_mset)
  ultimately show ?thesis by (simp add: displacementPass_None)
next
  case (Some r1)
  obtain pos1 m1 where r1: "r1 = (pos1, m1)" by (cases r1)
  have s: "set is1 = set is2" using assms by (metis set_mset_mset)
  have "displacementPass idx c d p is2 pos \<noteq> None"
    using Some s displacementPass_None[of idx c d p is1 pos]
      displacementPass_None[of idx c d p is2 pos]
    by simp
  then obtain pos2 m2 where r2: "displacementPass idx c d p is2 pos = Some (pos2, m2)" by auto
  note a = displacementPass_Some[OF Some[unfolded r1]]
  note b = displacementPass_Some[OF r2]
  have "pos1 = pos2"
    by (rule nth_equalityI) (simp_all add: a(1,2) b(1,2) visits_mset[OF assms])
  moreover have "arrayLength m1 v = arrayLength m2 v" for v
    by (simp add: a(3) b(3) visits_mset[OF assms])
  ultimately show ?thesis using Some r1 r2 a(4) b(4) by auto
qed



lemma stroke_Some:
  assumes "stroke m t p h g = Some g'"
  shows "\<exists>s pos' mp.
    brushSphere m p h = Some s
    \<and> displacementPass (indexAttr g) (center s) (referenceDirection m h) p
          (new_Set (regionQuery s t)) (posAttr g) = Some (pos', mp)
    \<and> posAttr g' = pos' \<and> indexAttr g' = indexAttr g
    \<and> (regionQuery s t \<noteq> [] \<longrightarrow>
           normalRefreshPass (indexAttr g) pos' mp (normalAttr g) = Some (normalAttr g'))
    \<and> (regionQuery s t = [] \<longrightarrow> normalAttr g' = normalAttr g)"
  using assms by (auto simp: stroke_def Let_def split: option.splits if_splits)

text \<open>Where a stroke leaves a vertex: displaced once for every entry of the set that
  resolves to it; a vertex farther from the centre than the radius stays where it
  was.\<close>

lemma stroke_positions:
  assumes "stroke m t p h g = Some g'" and "brushSphere m p h = Some s"
  shows "posAttr g' ! v
       = (displaceOnce (center s) (referenceDirection m h) p
            ^^ visits (indexAttr g) (new_Set (regionQuery s t)) v) (posAttr g ! v)"
proof -
  obtain pos' mp where
    d: "displacementPass (indexAttr g) (center s) (referenceDirection m h) p
          (new_Set (regionQuery s t)) (posAttr g) = Some (pos', mp)"
    and p: "posAttr g' = pos'"
    using stroke_Some[OF assms(1)] assms(2) by auto
  show ?thesis unfolding p by (rule displacementPass_Some(2)[OF d])
qed

lemma stroke_outside_radius:
  assumes "stroke m t p h g = Some g'" and "brushSphere m p h = Some s"
    and "distanceTo (posAttr g ! v) (center s) > size_param p"
  shows "posAttr g' ! v = posAttr g ! v"
  using stroke_positions[OF assms(1,2), of v] outside_radius_fixed[OF assms(3)] by simp

text \<open>The stroke depends on the tree only through the set of entries that the region
  query records.\<close>

lemma stroke_query_set:
  assumes "\<And>s. set (regionQuery s t1) = set (regionQuery s t2)"
  shows "stroke m t1 p h g = stroke m t2 p h g"
proof (cases "brushSphere m p h")
  case None
  then show ?thesis by (simp add: stroke_def)
next
  case (Some s)
  let ?d = "referenceDirection m h"
  let ?i1 = "regionQuery s t1" and ?i2 = "regionQuery s t2"
  have e: "?i1 \<noteq> [] \<longleftrightarrow> ?i2 \<noteq> []" using assms[of s] by (metis set_empty)
  from displacementPass_perm[OF mset_new_Set[OF assms[of s]], of "indexAttr g" "center s" ?d p "posAttr g"]
  show ?thesis
  proof
    assume "displacementPass (indexAttr g) (center s) ?d p (new_Set ?i1) (posAttr g) = None
      \<and> displacementPass (indexAttr g) (center s) ?d p (new_Set ?i2) (posAttr g) = None"
    then show ?thesis using Some by (simp add: stroke_def Let_def)
  next
    assume "\<exists>pos' m1 m2.
       displacementPass (indexAttr g) (center s) ?d p (new_Set ?i1) (posAttr g) = Some (pos', m1)
       \<and> displacementPass (indexAttr g) (center s) ?d p (new_Set ?i2) (posAttr g) = Some (pos', m2)
       \<and> distinct (map fst m1) \<and> distinct (map fst m2)
       \<and> (\<forall>v. arrayLength m1 v = arrayLength m2 v)"
    then obtain pos' m1 m2 where
      d1: "displacementPass (indexAttr g) (center s) ?d p (new_Set ?i1) (posAttr g) = Some (pos', m1)" and
      d2: "displacementPass (indexAttr g) (center s) ?d p (new_Set ?i2) (posAttr g) = Some (pos', m2)" and
      k: "distinct (map fst m1)" "distinct (map fst m2)" "\<And>v. arrayLength m1 v = arrayLength m2 v"
      by blast
    have "normalRefreshPass (indexAttr g) pos' m1 (normalAttr g)
        = normalRefreshPass (indexAttr g) pos' m2 (normalAttr g)"
      by (rule refreshPass_cong[OF k])
    then show ?thesis using Some d1 d2 e by (simp add: stroke_def Let_def)
  qed
qed

text \<open>A stroke of intensity zero moves no vertex, and running it again on its result
  returns the result.\<close>

lemma zero_intensity_stable:
  assumes "intensity p = 0" and "stroke m t p h g = Some g'"
  shows "posAttr g' = posAttr g \<and> stroke m t p h g' = Some g'"
proof -
  obtain s pos' mp where
    sp: "brushSphere m p h = Some s"
    and d: "displacementPass (indexAttr g) (center s) (referenceDirection m h) p
          (new_Set (regionQuery s t)) (posAttr g) = Some (pos', mp)"
    and p: "posAttr g' = pos'" and i: "indexAttr g' = indexAttr g"
    and n1: "regionQuery s t \<noteq> [] \<longrightarrow>
          normalRefreshPass (indexAttr g) pos' mp (normalAttr g) = Some (normalAttr g')"
    and n2: "regionQuery s t = [] \<longrightarrow> normalAttr g' = normalAttr g"
    using stroke_Some[OF assms(2)] by blast
  have same: "pos' = posAttr g"
    by (rule nth_equalityI)
      (simp_all add: displacementPass_Some(1,2)[OF d] funpow_fixed
         displaceOnce_zero_intensity[OF assms(1)])
  have again: "stroke m t p h g' = Some g'"
  proof (cases "regionQuery s t = []")
    case True
    then show ?thesis using d p i same sp by (simp add: stroke_def Let_def)
  next
    case False
    with n1 have "normalRefreshPass (indexAttr g) pos' mp (normalAttr g) = Some (normalAttr g')"
      by simp
    from refreshPass_idem[OF this]
    show ?thesis using d p i same False sp by (simp add: stroke_def Let_def)
  qed
  from p same again show ?thesis by simp
qed

subsection \<open>Frames and events\<close>





lemma handle_controls_active:
  "controls_active s = controls_active t \<Longrightarrow>
   controls_active (handle e s) = controls_active (handle e t)"
  by (cases e) simp_all

lemma handle_targetGeometry: "targetGeometry (handle e s) = targetGeometry s"
  by (cases e) simp_all

lemma idleRun_cong:
  "controls_active s = controls_active t \<Longrightarrow> idleRun steps s = idleRun steps t"
proof (induction steps arbitrary: s t)
  case Nil
  then show ?case by simp
next
  case (Cons st steps)
  show ?case
  proof (cases st)
    case (Event e)
    with Cons.IH[OF handle_controls_active[OF Cons.prems, of e]] show ?thesis by simp
  next
    case (Frame h)
    with Cons.IH[OF Cons.prems] Cons.prems show ?thesis by simp
  qed
qed

lemma render_idle:
  assumes "controls_active s \<or> h = None"
  shows "\<exists>s'. render h s = Some s' \<and> targetGeometry s' = targetGeometry s
              \<and> controls_active s' = controls_active s"
  using assms by (auto simp: render_def)

lemma idle_run_geometry:
  "idleRun steps s \<Longrightarrow> \<exists>s'. run steps s = Some s' \<and> targetGeometry s' = targetGeometry s"
proof (induction steps arbitrary: s)
  case Nil
  then show ?case by simp
next
  case (Cons st steps)
  show ?case
  proof (cases st)
    case (Event e)
    with Cons.prems have "idleRun steps (handle e s)" by simp
    from Cons.IH[OF this] Event show ?thesis by (simp add: handle_targetGeometry)
  next
    case (Frame h)
    with Cons.prems have idle: "controls_active s \<or> h = None" and rest: "idleRun steps s"
      by simp_all
    from render_idle[OF idle] obtain s1 where s1: "render h s = Some s1"
      "targetGeometry s1 = targetGeometry s" "controls_active s1 = controls_active s"
      by blast
    from rest idleRun_cong[OF s1(3), of steps] have "idleRun steps s1" by simp
    from Cons.IH[OF this] s1 Frame show ?thesis by simp
  qed
qed

subsection \<open>The parameter handlers\<close>

lemma controllerValue_bounds:
  fixes klo khi :: int
  assumes "0 < stp" "klo \<le> khi"
  shows "of_int klo * stp \<le> controllerValue (of_int klo * stp) (of_int khi * stp) stp v
       \<and> controllerValue (of_int klo * stp) (of_int khi * stp) stp v \<le> of_int khi * stp"
proof -
  define v1 where "v1 = (if v < of_int klo * stp then of_int klo * stp
                          else if v > of_int khi * stp then of_int khi * stp else v)"
  have b: "of_int klo * stp \<le> v1" "v1 \<le> of_int khi * stp"
    using assms by (auto simp: v1_def mult_right_mono)
  have q: "of_int klo \<le> v1 / stp" "v1 / stp \<le> of_int khi"
    using b assms(1) by (simp_all add: pos_le_divide_eq pos_divide_le_eq)
  have "klo \<le> \<lfloor>v1 / stp + 1 / 2\<rfloor>" using q(1) by (simp add: le_floor_iff)
  moreover have "\<lfloor>v1 / stp + 1 / 2\<rfloor> \<le> khi" using q(2) by (simp add: floor_le_iff)
  ultimately have "of_int klo * stp \<le> of_int \<lfloor>v1 / stp + 1 / 2\<rfloor> * stp"
    "of_int \<lfloor>v1 / stp + 1 / 2\<rfloor> * stp \<le> of_int khi * stp"
    using assms(1) by (simp_all add: mult_right_mono)
  then show ?thesis by (simp add: controllerValue_def v1_def Let_def)
qed

lemma size_controller:
  "5 / 100 \<le> controllerValue (5 / 100) (25 / 100) (1 / 100) v
   \<and> controllerValue (5 / 100) (25 / 100) (1 / 100) v \<le> 25 / 100"
  using controllerValue_bounds[of "1 / 100" 5 25 v] by simp

lemma intensity_controller:
  "1 / 1000 \<le> controllerValue (1 / 1000) (1 / 100) (1 / 1000) v
   \<and> controllerValue (1 / 1000) (1 / 100) (1 / 1000) v \<le> 1 / 100"
  using controllerValue_bounds[of "1 / 1000" 1 10 v] by simp

lemma size_controller_low: "v \<le> 0 \<Longrightarrow> controllerValue (5 / 100) (25 / 100) (1 / 100) v = 5 / 100"
  by (simp add: controllerValue_def)

lemma intensity_controller_low:
  "v < 0 \<Longrightarrow> controllerValue (1 / 1000) (1 / 100) (1 / 1000) v = 1 / 1000"
  by (simp add: controllerValue_def)

lemma wheel_size:
  "5 / 100 \<le> size_param (wheel deltaY deltaMode p) \<and> size_param (wheel deltaY deltaMode p) \<le> 25 / 100
   \<and> intensity (wheel deltaY deltaMode p) = intensity p"
  by (auto simp: wheel_def Let_def max_def min_def)

lemma handle_validParams:
  "validParams (parameters s) \<Longrightarrow> validParams (parameters (handle e s))"
  using size_controller intensity_controller wheel_size
  by (cases e) (simp_all add: validParams_def)

lemma render_parameters: "render h s = Some s' \<Longrightarrow> parameters s' = parameters s"
  by (auto simp: render_def Let_def split: if_splits option.splits)

lemma run_validParams:
  "validParams (parameters s) \<Longrightarrow> run steps s = Some s' \<Longrightarrow> validParams (parameters s')"
proof (induction steps arbitrary: s)
  case Nil
  then show ?case by simp
next
  case (Cons st steps)
  show ?case
  proof (cases st)
    case (Event e)
    with Cons.prems Cons.IH[OF handle_validParams[OF Cons.prems(1), of e]] show ?thesis by simp
  next
    case (Frame h)
    with Cons.prems obtain s1 where s1: "render h s = Some s1" "run steps s1 = Some s'"
      by (auto split: option.splits)
    from render_parameters[OF s1(1)] Cons.prems(1) have "validParams (parameters s1)" by simp
    from Cons.IH[OF this s1(2)] show ?thesis .
  qed
qed

subsection \<open>The concrete inputs, evaluated\<close>

lemma sqrt_eval: "0 \<le> y \<Longrightarrow> y * y = x \<Longrightarrow> sqrt x = y"
  by (metis real_sqrt_abs2 abs_of_nonneg)

lemma sqrt_values:
  "sqrt (1 / 250000) = 1 / 500" "sqrt 9 = 3" "sqrt 25 = 5" "sqrt 144 = 12"
  by (simp_all add: sqrt_eval[of "1 / 500"] sqrt_eval[of 3] sqrt_eval[of 5] sqrt_eval[of 12])

lemmas vec_defs = sub_def add_def multiplyScalar_def addScaledVector_def cross_def dot_def
  lengthSq_def distanceToSquared_def distanceTo_def normalize_def clamp_def

lemmas query_defs = regionQuery_def regionTest_def intersectsBox_def containsPoint_def
  roundedDistanceToSquared_def toDouble_zero toDouble_numeral toDouble_hundredth
  corners_def corner_def primitiveTest_def intersectsSphere_def closestPointToPoint_def

lemmas pass_defs = displacementPass_def displaceVertex_def getX_def fromBufferAttribute_def
  setXYZ_def pushTriangle_def toInt32_def normalRefreshPass_def refreshNormal_def
  accumulate_def faceNormal_def getNormal_def new_Set_def Set_add_def

lemmas stroke_defs = stroke_def brushSphere_def identityTransform_def identity_def
  applyMatrix4_def referenceDirection_def transformDirection_def initialParams_def


lemma fan_sphere:
  "brushSphere identityTransform initialParams fanHit
     = Some \<lparr>center = Vector3 0 0 0, radius = 1 / 10\<rparr>"
  by (simp add: stroke_defs fanHit_def)



lemma fan_stroke_positions:
  "map_option posAttr (stroke identityTransform fanTree initialParams fanHit fanGeometry)
     = Some [Vector3 0 0 (99 / 25000), Vector3 1 0 0, Vector3 0 1 0, Vector3 (- 1) 0 0]"
  by (simp add: stroke_defs fanTree_def fanHit_def fanGeometry_def query_defs pass_defs
      vec_defs sqrt_values Let_def)

lemma fan_trees_agree: "set (regionQuery s fanTree) = set (regionQuery s fanTreeSwapped)"
  by (cases "regionTest s \<lparr>bmin = Vector3 (- 1) 0 0, bmax = Vector3 1 1 0\<rparr>")
     (auto simp: regionQuery_def fanTree_def fanTreeSwapped_def primitiveTest_def)







section \<open>The claims\<close>

subsection \<open>C1: the normals written by the normal pass\<close>

text \<open>
  Claim C1 says that the normal written for a vertex of the incidence map is the mean
  of the face normals of the triangles recorded for that vertex. On the pair of
  triangles the stroke records triangle \<open>1\<close> for vertex \<open>3\<close> (its array is \<open>[1]\<close>),
  and the normal pass writes for vertex \<open>3\<close> the face normal of triangle \<open>0\<close>, the
  vector \<open>(0, 0, 1)\<close>, while the face normal of the recorded triangle \<open>1\<close>, taken from
  the positions after the displacement, has \<open>z\<close> component \<open>0\<close>: the loop
  \<open>for (const tri in arr)\<close> runs over the positions of \<open>arr\<close>, not over the triangle
  numbers stored in it.
\<close>

theorem normal_taken_from_first_triangles:
  "stroke identityTransform pairTree initialParams pairHit pairGeometry = Some pairResult
   \<and> displacementPass (indexAttr pairGeometry) (Vector3 0 0 0)
        (referenceDirection identityTransform pairHit) initialParams
        (new_Set (regionQuery \<lparr>center = Vector3 0 0 0, radius = 1 / 10\<rparr> pairTree))
        (posAttr pairGeometry) = Some (posAttr pairResult, [(3, [1])])
   \<and> normalAttr pairResult ! 3 = Vector3 0 0 1
   \<and> faceNormal (indexAttr pairGeometry) (posAttr pairResult) 0 = Some (Vector3 0 0 1)
   \<and> map_option vz (faceNormal (indexAttr pairGeometry) (posAttr pairResult) 1) = Some 0"
  by (simp add: pairResult_def stroke_defs pairTree_def pairHit_def pairGeometry_def query_defs
      pass_defs vec_defs sqrt_values Let_def)

subsection \<open>C2: one visit per vertex\<close>

text \<open>
  Claim C2 says that the displacement pass processes each vertex at most once and
  reads its position from before the stroke. On the fan the set holds the six entries
  \<open>0, ..., 5\<close> of the index buffer, and the entries \<open>0\<close> and \<open>3\<close> both resolve to vertex
  \<open>0\<close>: the visit of entry \<open>0\<close> moves the vertex from \<open>z = 0\<close> to \<open>z = 1/500\<close>, the
  visit of entry \<open>3\<close> reads the moved position and moves it again, to \<open>z = 99/25000\<close>,
  and that is where the stroke leaves it.
\<close>

theorem shared_vertex_displaced_twice:
  "brushSphere identityTransform initialParams fanHit
     = Some \<lparr>center = Vector3 0 0 0, radius = 1 / 10\<rparr>
   \<and> new_Set (regionQuery \<lparr>center = Vector3 0 0 0, radius = 1 / 10\<rparr> fanTree)
       = [0, 1, 2, 3, 4, 5]
   \<and> indexAttr fanGeometry ! 0 = 0 \<and> indexAttr fanGeometry ! 3 = 0
   \<and> displaceVertex (indexAttr fanGeometry) (Vector3 0 0 0) (Vector3 0 0 1) initialParams 0
        (posAttr fanGeometry, [])
       = Some ([Vector3 0 0 (1 / 500), Vector3 1 0 0, Vector3 0 1 0, Vector3 (- 1) 0 0], [(0, [0])])
   \<and> displaceVertex (indexAttr fanGeometry) (Vector3 0 0 0) (Vector3 0 0 1) initialParams 3
        ([Vector3 0 0 (1 / 500), Vector3 1 0 0, Vector3 0 1 0, Vector3 (- 1) 0 0], [(0, [0])])
       = Some ([Vector3 0 0 (99 / 25000), Vector3 1 0 0, Vector3 0 1 0, Vector3 (- 1) 0 0],
               [(0, [0, 1])])
   \<and> map_option posAttr (stroke identityTransform fanTree initialParams fanHit fanGeometry)
       = Some [Vector3 0 0 (99 / 25000), Vector3 1 0 0, Vector3 0 1 0, Vector3 (- 1) 0 0]"
  by (simp add: stroke_defs fanTree_def fanHit_def fanGeometry_def query_defs pass_defs
      vec_defs sqrt_values Let_def)

subsection \<open>C3: the region test\<close>




subsection \<open>C4: the displacement of a vertex within the radius\<close>

text \<open>
  Claim C4 says that a vertex at distance \<open>dist \<le> radius\<close> before the stroke ends at
  its old position plus the direction scaled by \<open>(1 - dist / radius) * intensity\<close>. On
  the fan vertex \<open>0\<close> is at distance \<open>0\<close> from the centre, so the claim puts it at
  \<open>z = 1/500\<close>; the stroke leaves it at \<open>z = 99/25000\<close>, because the vertex is
  displaced once for each of the two index entries that resolve to it.
\<close>

theorem displacement_exceeds_falloff:
  "brushSphere identityTransform initialParams fanHit
     = Some \<lparr>center = Vector3 0 0 0, radius = 1 / 10\<rparr>
   \<and> distanceTo (posAttr fanGeometry ! 0) (Vector3 0 0 0) = 0
   \<and> addScaledVector (posAttr fanGeometry ! 0) (referenceDirection identityTransform fanHit)
        ((1 - 0 / size_param initialParams) * intensity initialParams) = Vector3 0 0 (1 / 500)
   \<and> map_option posAttr (stroke identityTransform fanTree initialParams fanHit fanGeometry)
       = Some [Vector3 0 0 (99 / 25000), Vector3 1 0 0, Vector3 0 1 0, Vector3 (- 1) 0 0]"
  by (simp add: stroke_defs fanTree_def fanHit_def fanGeometry_def query_defs pass_defs
      vec_defs sqrt_values Let_def)

subsection \<open>C5: which normals the normal pass rewrites\<close>




subsection \<open>C6: the direction of the displacement\<close>



subsection \<open>C7: a stroke of intensity zero\<close>


subsection \<open>C8: idle frames\<close>

text \<open>
  Claim C8. In a session in which every frame runs while the orbit controls are active
  or the ray misses the mesh, whatever the events in between do to the pointer
  state and the parameters, every frame returns and the position array and the
  normal array at the end are those of the start. This covers the gesture that
  begins in the middle of a stroke: from the frame at which the controls are
  active until the first frame with inactive controls and a hit, nothing is
  written to the geometry.
\<close>

theorem idle_frames_do_not_mutate:
  assumes "idleRun steps s"
  shows "\<exists>s'. run steps s = Some s'
           \<and> posAttr (targetGeometry s') = posAttr (targetGeometry s)
           \<and> normalAttr (targetGeometry s') = normalAttr (targetGeometry s)"
  using idle_run_geometry[OF assms] by auto

theorem idle_frames_do_not_mutate_witness:
  "idleRun [Event (MouseButton True), Event ControlsStart, Frame (Some fanHit),
            Event (MouseButton False), Event (MouseButton True), Frame (Some fanHit),
            Event ControlsEnd, Frame None] exampleState
   \<and> (\<exists>s'. run [Event (MouseButton True), Event ControlsStart, Frame (Some fanHit),
            Event (MouseButton False), Event (MouseButton True), Frame (Some fanHit),
            Event ControlsEnd, Frame None] exampleState = Some s'
        \<and> posAttr (targetGeometry s') = posAttr (targetGeometry exampleState)
        \<and> normalAttr (targetGeometry s') = normalAttr (targetGeometry exampleState))"
proof -
  have a: "idleRun [Event (MouseButton True), Event ControlsStart, Frame (Some fanHit),
            Event (MouseButton False), Event (MouseButton True), Frame (Some fanHit),
            Event ControlsEnd, Frame None] exampleState"
    by (simp add: exampleState_def)
  from idle_frames_do_not_mutate[OF a] a show ?thesis by simp
qed

subsection \<open>C9: the parameters stay in range\<close>

text \<open>
  Claim C9. Starting from parameters in the ranges of the sliders (the initial
  parameters are), every session leaves them in these ranges, so the sphere of a
  region query has a radius of at least \<open>0.05\<close>. A radius \<open>\<le> 0\<close> that arrives
  through the size slider or through the wheel is replaced by the smallest size
  \<open>0.05\<close>, and an intensity \<open>< 0\<close> that arrives through the intensity slider by the
  smallest intensity \<open>0.001\<close>.
\<close>

theorem parameters_clamped:
  assumes "validParams (parameters s)" and "run steps s = Some s'"
    and "brushSphere (meshTransform s') (parameters s') h = Some sp"
    and "v \<le> 0" and "w < 0"
    and "size_param (parameters s')
           + (if deltaMode = 1 \<or> deltaMode = 2 then deltaY * 40 else deltaY) * (5 / 10000) \<le> 0"
  shows "validParams (parameters s')
       \<and> 5 / 100 \<le> radius sp
       \<and> size_param (parameters (handle (GuiSize v) s')) = 5 / 100
       \<and> intensity (parameters (handle (GuiIntensity w) s')) = 1 / 1000
       \<and> size_param (parameters (handle (Wheel deltaY deltaMode) s')) = 5 / 100"
proof -
  have v: "validParams (parameters s')" by (rule run_validParams[OF assms(1,2)])
  then have "5 / 100 \<le> radius sp"
    using assms(3) by (auto simp: brushSphere_def validParams_def split: option.splits)
  moreover have "size_param (parameters (handle (Wheel deltaY deltaMode) s')) = 5 / 100"
    using assms(6) by (auto simp: wheel_def Let_def split: if_splits)
  ultimately show ?thesis
    using v size_controller_low[OF assms(4)] intensity_controller_low[OF assms(5)] by simp
qed

theorem parameters_clamped_witness:
  "validParams (parameters exampleState)
   \<and> run [Event (Wheel 40 0), Event (GuiIntensity 5), Frame None] exampleState
       = Some (exampleState\<lparr>parameters := initialParams\<lparr>size_param := 12 / 100, intensity := 1 / 100\<rparr>,
                 controls_enabled := True, brush_visible := False, lastMouseState := False\<rparr>)
   \<and> brushSphere identityTransform (initialParams\<lparr>size_param := 12 / 100, intensity := 1 / 100\<rparr>)
        fanHit = Some \<lparr>center = Vector3 0 0 0, radius = 12 / 100\<rparr>
   \<and> size_param (parameters (handle (Wheel (- 1000) 0)
        (exampleState\<lparr>parameters := initialParams\<lparr>size_param := 12 / 100, intensity := 1 / 100\<rparr>,
                 controls_enabled := True, brush_visible := False, lastMouseState := False\<rparr>))) = 5 / 100
   \<and> size_param (parameters (handle (GuiSize (- 3))
        (exampleState\<lparr>parameters := initialParams\<lparr>size_param := 12 / 100, intensity := 1 / 100\<rparr>,
                 controls_enabled := True, brush_visible := False, lastMouseState := False\<rparr>))) = 5 / 100
   \<and> intensity (parameters (handle (GuiIntensity (- 1))
        (exampleState\<lparr>parameters := initialParams\<lparr>size_param := 12 / 100, intensity := 1 / 100\<rparr>,
                 controls_enabled := True, brush_visible := False, lastMouseState := False\<rparr>))) = 1 / 1000"
proof -
  let ?s' = "exampleState\<lparr>parameters := initialParams\<lparr>size_param := 12 / 100, intensity := 1 / 100\<rparr>,
                 controls_enabled := True, brush_visible := False, lastMouseState := False\<rparr>"
  have a: "validParams (parameters exampleState)"
    by (simp add: exampleState_def initialParams_def validParams_def)
  have b: "run [Event (Wheel 40 0), Event (GuiIntensity 5), Frame None] exampleState = Some ?s'"
    by (simp add: exampleState_def initialParams_def wheel_def controllerValue_def render_def Let_def)
  have c: "brushSphere (meshTransform ?s') (parameters ?s') fanHit
             = Some \<lparr>center = Vector3 0 0 0, radius = 12 / 100\<rparr>"
    by (simp add: exampleState_def stroke_defs fanHit_def)
  have d: "(- 3 :: real) \<le> 0" and e: "(- 1 :: real) < 0" by simp_all
  have f: "size_param (parameters ?s')
           + (if (0::nat) = 1 \<or> (0::nat) = 2 then - 1000 * 40 else - 1000) * (5 / 10000) \<le> 0"
    by (simp add: initialParams_def)
  from parameters_clamped[OF a b c d e f] a b c show ?thesis
    by (simp add: exampleState_def)
qed

subsection \<open>C10: the frame is a function of its inputs\<close>

text \<open>
  Claim C10. Two executions of \<open>render\<close> with the same answer of the raycaster, from
  states with equal geometry, equal pointer states, equal gesture flag, equal
  parameters and equal mesh transform, give equal position arrays and equal normal
  arrays (or both leave the model: a read outside a buffer, a quotient with divisor
  zero). The spatial index need only agree on the
  set of entries that a region query records: neither the order in which the
  traversal reports the triangles nor the order in which the set is visited
  changes the arrays.
\<close>

theorem render_deterministic:
  assumes "targetGeometry s1 = targetGeometry s2"
    and "mouseState s1 = mouseState s2" and "lastMouseState s1 = lastMouseState s2"
    and "controls_active s1 = controls_active s2"
    and "parameters s1 = parameters s2"
    and "meshTransform s1 = meshTransform s2"
    and "\<And>s. set (regionQuery s (boundsTree s1)) = set (regionQuery s (boundsTree s2))"
  shows "map_option (\<lambda>s. posAttr (targetGeometry s)) (render h s1)
           = map_option (\<lambda>s. posAttr (targetGeometry s)) (render h s2)
       \<and> map_option (\<lambda>s. normalAttr (targetGeometry s)) (render h s1)
           = map_option (\<lambda>s. normalAttr (targetGeometry s)) (render h s2)"
proof -
  have "stroke (meshTransform s1) (boundsTree s1) (parameters s1) ht (targetGeometry s1)
      = stroke (meshTransform s2) (boundsTree s2) (parameters s2) ht (targetGeometry s2)" for ht
    using stroke_query_set[OF assms(7), of "meshTransform s2" "parameters s2" ht "targetGeometry s2"]
      assms(1,5,6) by simp
  then show ?thesis
    using assms(1-4) by (auto simp: render_def Let_def split: option.splits)
qed

theorem render_deterministic_witness:
  "map_option (\<lambda>s. posAttr (targetGeometry s))
      (render (Some fanHit) (exampleState\<lparr>mouseState := True\<rparr>))
     = map_option (\<lambda>s. posAttr (targetGeometry s))
         (render (Some fanHit) (exampleState\<lparr>mouseState := True, boundsTree := fanTreeSwapped\<rparr>))
   \<and> map_option (\<lambda>s. normalAttr (targetGeometry s))
      (render (Some fanHit) (exampleState\<lparr>mouseState := True\<rparr>))
     = map_option (\<lambda>s. normalAttr (targetGeometry s))
         (render (Some fanHit) (exampleState\<lparr>mouseState := True, boundsTree := fanTreeSwapped\<rparr>))
   \<and> map_option (\<lambda>s. posAttr (targetGeometry s))
      (render (Some fanHit) (exampleState\<lparr>mouseState := True\<rparr>))
     = Some [Vector3 0 0 (99 / 25000), Vector3 1 0 0, Vector3 0 1 0, Vector3 (- 1) 0 0]"
proof -
  let ?s1 = "exampleState\<lparr>mouseState := True\<rparr>"
  let ?s2 = "exampleState\<lparr>mouseState := True, boundsTree := fanTreeSwapped\<rparr>"
  have t: "\<And>s. set (regionQuery s (boundsTree ?s1)) = set (regionQuery s (boundsTree ?s2))"
    by (simp add: exampleState_def fan_trees_agree)
  have p: "map_option (\<lambda>s. posAttr (targetGeometry s)) (render (Some fanHit) ?s1)
     = Some [Vector3 0 0 (99 / 25000), Vector3 1 0 0, Vector3 0 1 0, Vector3 (- 1) 0 0]"
    using fan_stroke_positions
    by (auto simp: render_def exampleState_def Let_def split: option.splits)
  from render_deterministic[of ?s1 ?s2 "Some fanHit", OF _ _ _ _ _ _ t] p
  show ?thesis by simp
qed

end
